theory Spec2Isabelle
  imports Main "HOL-Library.Sublist"
begin

section \<open>The file import path of the project files tree view\<close>

text \<open>
  This theory embeds three methods of \<^verbatim>\<open>FilesTreeView\<close> in
  \<^verbatim>\<open>src/windows/views/files_treeview.py\<close>: \<^verbatim>\<open>is_image\<close>, \<^verbatim>\<open>add_file\<close> and
  \<^verbatim>\<open>dropEvent\<close>. Everything these methods reach outside the file (the media library
  \<^verbatim>\<open>openshot\<close>, the file system, the project data behind \<^verbatim>\<open>File\<close>) is either a
  parameter of the model or a field of an explicit state.
\<close>

subsection \<open>Data\<close>

text \<open>
  The three strings the code stores under the key \<^verbatim>\<open>media_type\<close>:
  \<^verbatim>\<open>"video"\<close>, \<^verbatim>\<open>"image"\<close>, \<^verbatim>\<open>"audio"\<close>.
\<close>

datatype media = Video | Image | Audio

text \<open>
  \<^verbatim>\<open>file_data\<close> is the dictionary decoded from the reader's JSON; the same dictionary
  becomes the data of the saved \<^verbatim>\<open>File\<close>. The code reads the keys \<^verbatim>\<open>path\<close>,
  \<^verbatim>\<open>has_video\<close> and \<^verbatim>\<open>has_audio\<close> and may write \<^verbatim>\<open>media_type\<close>; all other keys
  are carried along untouched (\<open>other\<close>). An absent \<^verbatim>\<open>media_type\<close> key is \<open>None\<close>.
\<close>

record file_data =
  path :: string
  has_video :: bool
  has_audio :: bool
  media_type :: "media option"
  other :: "(string \<times> string) list"

text \<open>
  A dropped URI after \<^verbatim>\<open>urlparse(uri.toString())\<close>: the two components the handler
  reads.
\<close>

record parse_result =
  url_scheme :: string
  url_path :: string

text \<open>
  Exceptions as values. \<open>IndexError\<close> is what indexing an empty string raises;
  \<open>ExternalError\<close> stands for whatever a call into the media library raises.
\<close>

datatype py_exception = IndexError | ExternalError string

text \<open>
  The collaborators the methods call and do not define.
  \<^item> \<open>openshot_Clip\<close> is the constructor call \<^verbatim>\<open>openshot.Clip(filepath)\<close> of line 139,
    which stands before the \<^verbatim>\<open>try\<close>.
  \<^item> \<open>reader_json\<close> is \<^verbatim>\<open>json.loads(clip.Reader().Json())\<close> of lines 143-144 together
    with the reads of the three keys; it stands inside the \<^verbatim>\<open>try\<close>. It fails when
    the clip has no reader, when the JSON does not decode or when it lacks a key.
  \<^item> \<open>os_path_exists\<close> and \<open>os_path_isfile\<close> are the two file system tests of line 176.
  \<^item> \<open>os_path_split\<close> is \<^verbatim>\<open>os.path.split\<close> of line 126, which depends on the platform;
    its second component names the file in the dialog.
\<close>

record 'clip environment =
  openshot_Clip :: "string \<Rightarrow> py_exception + 'clip"
  reader_json :: "'clip \<Rightarrow> py_exception + file_data"
  os_path_exists :: "string \<Rightarrow> bool"
  os_path_isfile :: "string \<Rightarrow> bool"
  os_path_split :: "string \<Rightarrow> string \<times> string"

text \<open>
  What the methods change.
  \<^item> \<open>files\<close>: the file records of the project data, in the order they were saved;
  \<^item> \<open>opened\<close>: the paths handed to \<^verbatim>\<open>openshot.Clip\<close>, in call order;
  \<^item> \<open>dialogs\<close>: the texts of the message boxes shown;
  \<^item> \<open>logged\<close>: the lines written with \<^verbatim>\<open>log.info\<close>;
  \<^item> \<open>accepted\<close>: whether \<^verbatim>\<open>event.accept()\<close> has been called.
\<close>

record app_state =
  files :: "file_data list"
  opened :: "string list"
  dialogs :: "string list"
  logged :: "string list"
  accepted :: bool

subsection \<open>The project data\<close>

text \<open>
  Modelled from the spec: \<^verbatim>\<open>File.get\<close> of \<^verbatim>\<open>classes.query\<close> is not among the sources.
  The spec gives the registry a point lookup \<^verbatim>\<open>findByPath(path) -> AssetRecord | None\<close>;
  the call \<^verbatim>\<open>File.get(path=filepath)\<close> is that lookup, returning the first record whose
  \<^verbatim>\<open>path\<close> is the given one.
\<close>

definition File_get :: "file_data list \<Rightarrow> string \<Rightarrow> file_data option" where
  "File_get fs filepath = find (\<lambda>f. path f = filepath) fs"

text \<open>
  Modelled from the spec: \<^verbatim>\<open>File.save\<close> of \<^verbatim>\<open>classes.query\<close> is not among the sources.
  The spec gives the registry \<^verbatim>\<open>insert(record) -> void\<close>; saving a new \<^verbatim>\<open>File\<close> is
  that insert, and adds the record after the existing ones.
\<close>

definition File_save :: "app_state \<Rightarrow> file_data \<Rightarrow> app_state" where
  "File_save s file = s\<lparr>files := files s @ [file]\<rparr>"

subsection \<open>Strings\<close>

text \<open>
  \<^verbatim>\<open>str.lower\<close> on the ASCII letters; every other character is kept. A string is
  its UTF-8 bytes. The suffixes \<^verbatim>\<open>is_image\<close> looks for are ASCII and no other
  character lowers to one of their letters, so this is the part of \<^verbatim>\<open>lower\<close> the
  test depends on.
\<close>

definition lower_char :: "char \<Rightarrow> char" where
  "lower_char c =
     (let n = (of_char c :: nat) in if 65 \<le> n \<and> n \<le> 90 then char_of (n + 32) else c)"

definition lower :: "string \<Rightarrow> string" where
  "lower s = map lower_char s"

text \<open>\<^verbatim>\<open>s.endswith(suffix)\<close> for one suffix, and for a tuple of suffixes.\<close>

definition endswith :: "string \<Rightarrow> string \<Rightarrow> bool" where
  "endswith s suff = (length suff \<le> length s \<and> drop (length s - length suff) s = suff)"

definition endswith_any :: "string \<Rightarrow> string list \<Rightarrow> bool" where
  "endswith_any s suffs = list_ex (endswith s) suffs"

text \<open>
  \<^verbatim>\<open>posixpath.split\<close>, the \<^verbatim>\<open>os.path.split\<close> of the POSIX platforms: the tail is
  what follows the last \<^verbatim>\<open>/\<close>, the head is what stands before it, without its
  trailing separators unless it consists of separators only. It is the
  \<open>os_path_split\<close> of the example worlds below.
\<close>

definition posix_split :: "string \<Rightarrow> string \<times> string" where
  "posix_split p =
     (let tail = rev (takeWhile (\<lambda>c. c \<noteq> CHR ''/'') (rev p));
          head = take (length p - length tail) p
      in (if head \<noteq> [] \<and> \<not> list_all (\<lambda>c. c = CHR ''/'') head
          then rev (dropWhile (\<lambda>c. c = CHR ''/'') (rev head)) else head,
          tail))"

subsection \<open>\<^verbatim>\<open>is_image\<close> (lines 117-123)\<close>

definition is_image :: "file_data \<Rightarrow> bool" where
  "is_image file =
     (let p = lower (path file) in
      if endswith_any p
           [''.jpg'', ''.jpeg'', ''.png'', ''.bmp'', ''.svg'', ''.thm'', ''.gif'', ''.bmp'',
            ''.pgm'', ''.tif'', ''.tiff'']
      then True else False)"

text \<open>
  The spec's wording of the same predicate, for comparison: a case-insensitive suffix
  match against the fixed set of extensions, each after a dot.
\<close>

definition image_extensions :: "string list" where
  "image_extensions =
     [''jpg'', ''jpeg'', ''png'', ''bmp'', ''svg'', ''thm'', ''gif'', ''pgm'', ''tif'', ''tiff'']"

definition isImageExtension_spec :: "string \<Rightarrow> bool" where
  "isImageExtension_spec p =
     (\<exists>ext \<in> set image_extensions. suffix (''.'' @ ext) (lower p))"

subsection \<open>The media type (lines 146-152)\<close>

text \<open>
  The \<^verbatim>\<open>if\<close>/\<^verbatim>\<open>elif\<close> chain of \<^verbatim>\<open>add_file\<close>, as a function of the three values it
  tests. The result is the media type the chain assigns, \<open>None\<close> when no branch is
  taken (the chain has no \<^verbatim>\<open>else\<close>).
\<close>

definition classify :: "bool \<Rightarrow> bool \<Rightarrow> bool \<Rightarrow> media option" where
  "classify hasVideo hasAudio isImage =
     (if hasVideo \<and> \<not> isImage then Some Video
      else if hasVideo \<and> isImage then Some Image
      else if hasAudio \<and> \<not> hasVideo then Some Audio
      else None)"

subsection \<open>\<^verbatim>\<open>add_file\<close> (lines 125-165)\<close>

text \<open>
  The result is the returned value and the state left behind: \<open>Inr None\<close> for the bare
  \<^verbatim>\<open>return\<close> of line 136, \<open>Inr (Some True)\<close> and \<open>Inr (Some False)\<close> for lines 158 and
  165, and \<open>Inl e\<close> when the exception \<open>e\<close> leaves the method. The state is returned in
  every case, since what was changed before an exception stays changed.
\<close>

definition add_file ::
  "'clip environment \<Rightarrow> string \<Rightarrow> app_state \<Rightarrow> (py_exception + bool option) \<times> app_state"
where
  "add_file env filepath s =
     (let filename = snd (os_path_split env filepath) in
      case File_get (files s) filepath of
        Some file \<Rightarrow> (Inr None, s)
      | None \<Rightarrow>
          (let s1 = s\<lparr>opened := opened s @ [filepath]\<rparr> in
           case openshot_Clip env filepath of
             Inl e \<Rightarrow> (Inl e, s1)
           | Inr clip \<Rightarrow>
               (case reader_json env clip of
                  Inl e \<Rightarrow>
                    (Inr (Some False),
                     s1\<lparr>dialogs := dialogs s1 @
                        [filename @ '' is not a valid video, audio, or image file.'']\<rparr>)
                | Inr file_data \<Rightarrow>
                    (let file_data' =
                       (case classify (has_video file_data) (has_audio file_data)
                               (is_image file_data) of
                          Some m \<Rightarrow> file_data\<lparr>media_type := Some m\<rparr>
                        | None \<Rightarrow> file_data)
                     in (Inr (Some True), File_save s1 file_data')))))"

text \<open>
  The record \<^verbatim>\<open>add_file\<close> saves for the reader's data: the data itself, with
  \<^verbatim>\<open>media_type\<close> set when a branch of the chain is taken (lines 146-156).
\<close>

definition with_media_type :: "file_data \<Rightarrow> file_data" where
  "with_media_type fd =
     (case classify (has_video fd) (has_audio fd) (is_image fd) of
        Some m \<Rightarrow> fd\<lparr>media_type := Some m\<rparr> | None \<Rightarrow> fd)"

subsection \<open>\<^verbatim>\<open>dropEvent\<close> (lines 168-179)\<close>

text \<open>
  Lines 174-175: the first character is read before anything else, so the empty path
  raises; otherwise one leading \<^verbatim>\<open>/\<close> is dropped when the path holds a colon.
\<close>

definition local_path :: "string \<Rightarrow> py_exception + string" where
  "local_path filepath =
     (case filepath of
        [] \<Rightarrow> Inl IndexError
      | c # cs \<Rightarrow> Inr (if c = CHR ''/'' \<and> CHR '':'' \<in> set filepath then cs else filepath))"

text \<open>The body of the loop, for one URI.\<close>

definition drop_uri ::
  "'clip environment \<Rightarrow> parse_result \<Rightarrow> app_state \<Rightarrow> (py_exception + unit) \<times> app_state"
where
  "drop_uri env file_url s =
     (if url_scheme file_url = ''file'' then
        (case local_path (url_path file_url) of
           Inl e \<Rightarrow> (Inl e, s)
         | Inr filepath \<Rightarrow>
             if os_path_exists env filepath \<and> os_path_isfile env filepath then
               (let s1 = s\<lparr>logged := logged s @ [''Adding file: '' @ filepath]\<rparr> in
                case add_file env filepath s1 of
                  (Inl e, s2) \<Rightarrow> (Inl e, s2)
                | (Inr r, s2) \<Rightarrow>
                    (Inr (), if r = Some True then s2\<lparr>accepted := True\<rparr> else s2))
             else (Inr (), s))
      else (Inr (), s))"

text \<open>The loop: the URIs in order; an exception ends it.\<close>

fun dropEvent ::
  "'clip environment \<Rightarrow> parse_result list \<Rightarrow> app_state \<Rightarrow> (py_exception + unit) \<times> app_state"
where
  "dropEvent env [] s = (Inr (), s)"
| "dropEvent env (uri # uris) s =
     (case drop_uri env uri s of
        (Inl e, s') \<Rightarrow> (Inl e, s')
      | (Inr u, s') \<Rightarrow> dropEvent env uris s')"

subsection \<open>Preconditions and sequences of calls\<close>

text \<open>
  The media library reports the path it was given: the \<^verbatim>\<open>path\<close> key of the reader's
  JSON is the path the clip was opened with. \<^verbatim>\<open>add_file\<close> looks a file up by
  \<^verbatim>\<open>filepath\<close> and saves it under the reader's \<^verbatim>\<open>path\<close>, so the properties of the
  lookup rest on this.
\<close>

definition reader_reports_path :: "'clip environment \<Rightarrow> bool" where
  "reader_reports_path env =
     (\<forall>p c fd. openshot_Clip env p = Inr c \<longrightarrow> reader_json env c = Inr fd \<longrightarrow> path fd = p)"

text \<open>
  The same for one path: whatever the reader returns for the clip opened with \<open>p\<close>
  carries the path \<open>p\<close>.
\<close>

definition reports_path :: "'clip environment \<Rightarrow> string \<Rightarrow> bool" where
  "reports_path env p =
     (\<forall>c fd. openshot_Clip env p = Inr c \<longrightarrow> reader_json env c = Inr fd \<longrightarrow> path fd = p)"

text \<open>The constructor \<^verbatim>\<open>openshot.Clip\<close> returns a clip for every path.\<close>

definition clip_constructs :: "'clip environment \<Rightarrow> bool" where
  "clip_constructs env = (\<forall>p. \<exists>c. openshot_Clip env p = Inr c)"

text \<open>Every dropped URI of scheme \<^verbatim>\<open>file\<close> has a path component that is not empty.\<close>

definition paths_nonempty :: "parse_result list \<Rightarrow> bool" where
  "paths_nonempty uris = (\<forall>u \<in> set uris. url_scheme u = ''file'' \<longrightarrow> url_path u \<noteq> [])"

text \<open>
  The URIs for which the loop body reaches \<^verbatim>\<open>add_file\<close>, and the path it passes.
\<close>

definition reaches_add_file :: "'clip environment \<Rightarrow> parse_result \<Rightarrow> bool" where
  "reaches_add_file env u =
     (url_scheme u = ''file'' \<and>
      (case local_path (url_path u) of
         Inl e \<Rightarrow> False
       | Inr fp \<Rightarrow> os_path_exists env fp \<and> os_path_isfile env fp))"

definition passed_path :: "parse_result \<Rightarrow> string" where
  "passed_path u = (case local_path (url_path u) of Inl e \<Rightarrow> [] | Inr fp \<Rightarrow> fp)"

text \<open>
  The constructor returns a clip for each path the loop passes to \<^verbatim>\<open>add_file\<close>.
\<close>

definition clips_construct :: "'clip environment \<Rightarrow> parse_result list \<Rightarrow> bool" where
  "clips_construct env uris =
     (\<forall>u \<in> set uris. reaches_add_file env u \<longrightarrow> (\<exists>c. openshot_Clip env (passed_path u) = Inr c))"

text \<open>
  Lines 177-179 for a list of paths, one after the other: the log line, the call of
  \<^verbatim>\<open>add_file\<close>, and \<^verbatim>\<open>event.accept()\<close> when the call returned \<^verbatim>\<open>True\<close>. The
  value a call returns or raises is not looked at otherwise.
\<close>

fun add_each :: "'clip environment \<Rightarrow> string list \<Rightarrow> app_state \<Rightarrow> app_state" where
  "add_each env [] s = s"
| "add_each env (fp # fps) s =
     (case add_file env fp (s\<lparr>logged := logged s @ [''Adding file: '' @ fp]\<rparr>) of
        (r, s2) \<Rightarrow> add_each env fps (if r = Inr (Some True) then s2\<lparr>accepted := True\<rparr> else s2))"




text \<open>
  A sequence of calls of the two methods. A call that ends in an exception leaves its
  changes behind, and the next call starts from them.
\<close>

datatype operation = AddFile string | DropEvent "parse_result list"

fun run_operation :: "'clip environment \<Rightarrow> app_state \<Rightarrow> operation \<Rightarrow> app_state" where
  "run_operation env s (AddFile filepath) = snd (add_file env filepath s)"
| "run_operation env s (DropEvent uris) = snd (dropEvent env uris s)"

definition run_operations :: "'clip environment \<Rightarrow> operation list \<Rightarrow> app_state \<Rightarrow> app_state" where
  "run_operations env ops s = foldl (run_operation env) s ops"

subsection \<open>Example data\<close>

text \<open>
  A small world for the concrete evaluations: \<^verbatim>\<open>/v.mp4\<close> is a film with sound,
  \<^verbatim>\<open>/n.dat\<close> opens but has neither video nor audio, \<^verbatim>\<open>/bad.bin\<close> exists and cannot be
  read, and nothing else exists. The clip handle is the path itself.
\<close>

definition film :: file_data where
  "film = \<lparr>path = ''/v.mp4'', has_video = True, has_audio = True, media_type = None, other = []\<rparr>"

definition blank :: file_data where
  "blank = \<lparr>path = ''/n.dat'', has_video = False, has_audio = False, media_type = None, other = []\<rparr>"

definition demo_env :: "string environment" where
  "demo_env =
     \<lparr>openshot_Clip = (\<lambda>p. Inr p),
      reader_json = (\<lambda>c. if c = ''/v.mp4'' then Inr film
                          else if c = ''/n.dat'' then Inr blank
                          else Inl (ExternalError ''no reader'')),
      os_path_exists = (\<lambda>p. p = ''/v.mp4'' \<or> p = ''/n.dat'' \<or> p = ''/bad.bin''),
      os_path_isfile = (\<lambda>p. p = ''/v.mp4'' \<or> p = ''/n.dat'' \<or> p = ''/bad.bin''),
      os_path_split = posix_split\<rparr>"

text \<open>The same world with a constructor that raises.\<close>

definition raising_env :: "string environment" where
  "raising_env = demo_env\<lparr>openshot_Clip := (\<lambda>p. Inl (ExternalError ''clip''))\<rparr>"

text \<open>
  A world whose reader answers every clip with the data of \<^verbatim>\<open>/other.mp4\<close>, whatever
  path it was opened with.
\<close>

definition other_film :: file_data where
  "other_film =
     \<lparr>path = ''/other.mp4'', has_video = True, has_audio = True, media_type = None, other = []\<rparr>"

definition misreporting_env :: "string environment" where
  "misreporting_env = demo_env\<lparr>reader_json := (\<lambda>c. Inr other_film)\<rparr>"



definition empty_state :: app_state where
  "empty_state = \<lparr>files = [], opened = [], dialogs = [], logged = [], accepted = False\<rparr>"

text \<open>The state after \<^verbatim>\<open>/v.mp4\<close> has been added to the empty project.\<close>

definition film_state :: app_state where
  "film_state =
     \<lparr>files = [film\<lparr>media_type := Some Video\<rparr>], opened = [''/v.mp4''], dialogs = [],
      logged = [], accepted = False\<rparr>"

definition file_uri :: "string \<Rightarrow> parse_result" where
  "file_uri p = \<lparr>url_scheme = ''file'', url_path = p\<rparr>"

section \<open>Properties\<close>

subsection \<open>The media type chain\<close>

text \<open>
  C1. The chain is an exact precedence: for all three booleans the result is video
  exactly when there is video and no image extension, image exactly when there is video
  and an image extension, audio exactly when there is audio and no video, and no type at
  all exactly in the remaining case (neither video nor audio); there is no default.
  The four sample points of the spec are instances.
\<close>

theorem classify_precedence:
  "(classify hasVideo hasAudio isImage = Some Video \<longleftrightarrow> hasVideo \<and> \<not> isImage) \<and>
   (classify hasVideo hasAudio isImage = Some Image \<longleftrightarrow> hasVideo \<and> isImage) \<and>
   (classify hasVideo hasAudio isImage = Some Audio \<longleftrightarrow> hasAudio \<and> \<not> hasVideo) \<and>
   (classify hasVideo hasAudio isImage = None \<longleftrightarrow> \<not> hasVideo \<and> \<not> hasAudio) \<and>
   classify True False False = Some Video \<and>
   classify True False True = Some Image \<and>
   classify False True False = Some Audio \<and>
   classify False False False = None"
  by (simp add: classify_def)

subsection \<open>Image extensions\<close>

lemma endswith_suffix: "endswith s suff \<longleftrightarrow> suffix suff s"
proof
  assume "endswith s suff"
  then have "s = take (length s - length suff) s @ suff"
    by (metis append_take_drop_id endswith_def)
  then show "suffix suff s" by (rule suffixI)
next
  assume "suffix suff s"
  then obtain zs where "s = zs @ suff" by (auto simp: suffix_def)
  then show "endswith s suff" by (simp add: endswith_def)
qed

lemma lower_a_PNG: "lower ''a.PNG'' = ''a.png''"
  by code_simp

lemma lower_a_mov: "lower ''a.mov'' = ''a.mov''"
  by code_simp

text \<open>
  C9. \<^verbatim>\<open>is_image\<close> holds exactly when the lowercased path ends with a dot followed by
  one of jpg, jpeg, png, bmp, svg, thm, gif, pgm, tif, tiff. It reads nothing but the
  path string, so any record whose path is \<^verbatim>\<open>a.PNG\<close> is an image and any record whose
  path is \<^verbatim>\<open>a.mov\<close> is not.
\<close>

theorem is_image_extension:
  "(is_image fd \<longleftrightarrow> isImageExtension_spec (path fd)) \<and>
   (is_image fd \<longleftrightarrow>
      (\<exists>ext stem. ext \<in> set image_extensions \<and> lower (path fd) = stem @ ''.'' @ ext)) \<and>
   is_image (fd\<lparr>path := ''a.PNG''\<rparr>) \<and>
   \<not> is_image (fd\<lparr>path := ''a.mov''\<rparr>)"
proof -
  have spec: "is_image f \<longleftrightarrow> isImageExtension_spec (path f)" for f
    by (simp add: is_image_def isImageExtension_spec_def image_extensions_def
        endswith_any_def endswith_suffix Let_def)
  have words: "isImageExtension_spec p \<longleftrightarrow>
      (\<exists>ext stem. ext \<in> set image_extensions \<and> lower p = stem @ ''.'' @ ext)" for p
    unfolding isImageExtension_spec_def suffix_def by blast
  have png: "is_image (fd\<lparr>path := ''a.PNG''\<rparr>)"
    by (simp add: is_image_def lower_a_PNG endswith_any_def endswith_def)
  have mov: "\<not> is_image (fd\<lparr>path := ''a.mov''\<rparr>)"
    by (simp add: is_image_def lower_a_mov endswith_any_def endswith_def)
  from spec [of fd] words [of "path fd"] png mov show ?thesis by blast
qed

subsection \<open>The cases of \<^verbatim>\<open>add_file\<close>\<close>

lemma add_file_registered:
  "File_get (files s) p = Some f \<Longrightarrow> add_file env p s = (Inr None, s)"
  by (simp add: add_file_def)

lemma add_file_clip_raises:
  "File_get (files s) p = None \<Longrightarrow> openshot_Clip env p = Inl e \<Longrightarrow>
   add_file env p s = (Inl e, s\<lparr>opened := opened s @ [p]\<rparr>)"
  by (simp add: add_file_def)

lemma add_file_reader_fails:
  "File_get (files s) p = None \<Longrightarrow> openshot_Clip env p = Inr c \<Longrightarrow> reader_json env c = Inl e \<Longrightarrow>
   add_file env p s =
     (Inr (Some False),
      s\<lparr>opened := opened s @ [p],
        dialogs := dialogs s @
          [snd (os_path_split env p) @ '' is not a valid video, audio, or image file.'']\<rparr>)"
  by (simp add: add_file_def)

lemma add_file_saved:
  "File_get (files s) p = None \<Longrightarrow> openshot_Clip env p = Inr c \<Longrightarrow> reader_json env c = Inr fd \<Longrightarrow>
   add_file env p s =
     (Inr (Some True), s\<lparr>opened := opened s @ [p], files := files s @ [with_media_type fd]\<rparr>)"
  by (simp add: add_file_def File_save_def with_media_type_def)

lemma path_with_media_type: "path (with_media_type fd) = path fd"
  by (simp add: with_media_type_def split: option.splits)

lemma add_file_cases:
  obtains (registered) f where "File_get (files s) p = Some f"
  | (clip_raises) e where "File_get (files s) p = None" "openshot_Clip env p = Inl e"
  | (reader_fails) c e where "File_get (files s) p = None" "openshot_Clip env p = Inr c" "reader_json env c = Inl e"
  | (saved) c fd where "File_get (files s) p = None" "openshot_Clip env p = Inr c" "reader_json env c = Inr fd"
proof (cases "File_get (files s) p")
  case None
  show ?thesis
  proof (cases "openshot_Clip env p")
    case (Inl e)
    with None show ?thesis by (rule clip_raises)
  next
    case (Inr c)
    show ?thesis
    proof (cases "reader_json env c")
      case (Inl e)
      with None Inr show ?thesis by (rule reader_fails)
    next
      case (Inr fd)
      with None \<open>openshot_Clip env p = Inr c\<close> show ?thesis by (rule saved)
    qed
  qed
next
  case (Some f)
  then show ?thesis by (rule registered)
qed

lemma File_get_None: "File_get fs p = None \<longleftrightarrow> p \<notin> path ` set fs"
  by (auto simp: File_get_def find_None_iff)

lemma File_get_append_new: "path f = p \<Longrightarrow> File_get fs p = None \<Longrightarrow> File_get (fs @ [f]) p = Some f"
  by (induction fs) (auto simp: File_get_def split: if_splits)

lemma add_file_distinct:
  assumes "reader_reports_path env" and "distinct (map path (files s))"
  shows "distinct (map path (files (snd (add_file env p s))))"
proof (cases rule: add_file_cases [where s=s and p=p and env=env])
  case (saved c fd)
  from assms(1) saved(2,3) have "path fd = p" by (auto simp: reader_reports_path_def)
  with saved(1) assms(2) show ?thesis
    by (simp add: add_file_saved [OF saved] path_with_media_type File_get_None)
qed (simp_all add: add_file_registered add_file_clip_raises add_file_reader_fails assms(2))

subsection \<open>The loop body and the loop\<close>

lemma add_file_logged: "logged (snd (add_file env p s)) = logged s"
  by (cases rule: add_file_cases [where s=s and p=p and env=env])
     (simp_all add: add_file_registered add_file_clip_raises add_file_reader_fails add_file_saved)

lemma add_file_returns:
  assumes "clip_constructs env"
  shows "\<exists>r. fst (add_file env p s) = Inr r"
proof (cases rule: add_file_cases [where s=s and p=p and env=env])
  case (clip_raises e)
  from assms obtain c where "openshot_Clip env p = Inr c"
    unfolding clip_constructs_def by blast
  with clip_raises show ?thesis by simp
qed (simp_all add: add_file_registered add_file_reader_fails add_file_saved)


lemma drop_uri_other_scheme: "url_scheme u \<noteq> ''file'' \<Longrightarrow> drop_uri env u s = (Inr (), s)"
  by (simp add: drop_uri_def)

lemma drop_uri_empty_path:
  "url_scheme u = ''file'' \<Longrightarrow> url_path u = [] \<Longrightarrow> drop_uri env u s = (Inl IndexError, s)"
  by (simp add: drop_uri_def local_path_def)


lemma local_path_Inl: "local_path p = Inl e \<longleftrightarrow> p = [] \<and> e = IndexError"
  by (cases p) (auto simp: local_path_def)

lemma drop_uri_skip:
  assumes "\<not> reaches_add_file env u" and "url_scheme u = ''file'' \<longrightarrow> url_path u \<noteq> []"
  shows "drop_uri env u s = (Inr (), s)"
proof (cases "url_scheme u = ''file''")
  case True
  with assms(2) obtain fp where fp: "local_path (url_path u) = Inr fp"
    by (cases "local_path (url_path u)") (auto simp: local_path_Inl)
  with True assms(1) have "\<not> (os_path_exists env fp \<and> os_path_isfile env fp)"
    by (simp add: reaches_add_file_def)
  with True fp show ?thesis by (auto simp: drop_uri_def)
next
  case False
  then show ?thesis by (simp add: drop_uri_def)
qed

lemma drop_uri_reaches:
  "reaches_add_file env u \<Longrightarrow>
   drop_uri env u s =
     (case add_file env (passed_path u) (s\<lparr>logged := logged s @ [''Adding file: '' @ passed_path u]\<rparr>) of
        (Inl e, s2) \<Rightarrow> (Inl e, s2)
      | (Inr r, s2) \<Rightarrow> (Inr (), if r = Some True then s2\<lparr>accepted := True\<rparr> else s2))"
  by (cases "local_path (url_path u)")
     (simp_all add: drop_uri_def reaches_add_file_def passed_path_def)

lemma drop_uri_cases:
  obtains (other) "url_scheme u \<noteq> ''file''"
  | (empty) "url_scheme u = ''file''" "url_path u = []"
  | (skip) "url_scheme u = ''file''" "url_path u \<noteq> []" "\<not> reaches_add_file env u"
  | (reach) "reaches_add_file env u"
  by blast

lemma drop_uri_returns:
  assumes "clip_constructs env" and "url_scheme u = ''file'' \<longrightarrow> url_path u \<noteq> []"
  shows "fst (drop_uri env u s) = Inr ()"
proof (cases "reaches_add_file env u")
  case True
  obtain r s2 where a: "add_file env (passed_path u)
      (s\<lparr>logged := logged s @ [''Adding file: '' @ passed_path u]\<rparr>) = (r, s2)"
    by (cases "add_file env (passed_path u)
      (s\<lparr>logged := logged s @ [''Adding file: '' @ passed_path u]\<rparr>)")
  from add_file_returns [OF assms(1), of "passed_path u"
      "s\<lparr>logged := logged s @ [''Adding file: '' @ passed_path u]\<rparr>"] a
  obtain v where "r = Inr v" by auto
  with True a show ?thesis by (simp add: drop_uri_reaches)
next
  case False
  with assms(2) show ?thesis by (simp add: drop_uri_skip)
qed

lemma dropEvent_append:
  "dropEvent env (us @ vs) s =
     (case dropEvent env us s of
        (Inl e, s') \<Rightarrow> (Inl e, s')
      | (Inr u, s') \<Rightarrow> dropEvent env vs s')"
  by (induction us arbitrary: s) (auto split: prod.splits sum.splits)

lemma dropEvent_returns:
  "clip_constructs env \<Longrightarrow> paths_nonempty uris \<Longrightarrow> fst (dropEvent env uris s) = Inr ()"
proof (induction uris arbitrary: s)
  case Nil
  show ?case by simp
next
  case (Cons u uris)
  from Cons.prems have u: "url_scheme u = ''file'' \<longrightarrow> url_path u \<noteq> []"
    and rest: "paths_nonempty uris" by (simp_all add: paths_nonempty_def)
  from drop_uri_returns [OF Cons.prems(1) u, of s]
  obtain s' where "drop_uri env u s = (Inr (), s')" by (cases "drop_uri env u s") auto
  with Cons.IH [OF Cons.prems(1) rest] show ?case by simp
qed

lemma dropEvent_empty_path_raises:
  "url_scheme u = ''file'' \<Longrightarrow> url_path u = [] \<Longrightarrow> \<exists>e s'. dropEvent env (us @ u # vs) s = (Inl e, s')"
proof (induction us arbitrary: s)
  case Nil
  then show ?case by (simp add: drop_uri_empty_path)
next
  case (Cons a us)
  obtain r s1 where d: "drop_uri env a s = (r, s1)" by (cases "drop_uri env a s")
  show ?case
  proof (cases r)
    case (Inl e)
    with d show ?thesis by simp
  next
    case (Inr v)
    with d Cons.IH [OF Cons.prems, of s1] show ?thesis by simp
  qed
qed

subsection \<open>What the calls leave in the state\<close>

lemma drop_uri_state:
  "snd (drop_uri env u s) = s \<or>
   (reaches_add_file env u \<and>
    (\<exists>a. snd (drop_uri env u s) =
       (snd (add_file env (passed_path u)
          (s\<lparr>logged := logged s @ [''Adding file: '' @ passed_path u]\<rparr>)))\<lparr>accepted := a\<rparr>))"
proof (cases rule: drop_uri_cases [where u=u and env=env])
  case reach
  obtain r s2 where a: "add_file env (passed_path u)
      (s\<lparr>logged := logged s @ [''Adding file: '' @ passed_path u]\<rparr>) = (r, s2)"
    by (cases "add_file env (passed_path u)
      (s\<lparr>logged := logged s @ [''Adding file: '' @ passed_path u]\<rparr>)")
  have "\<exists>b. snd (drop_uri env u s) = s2\<lparr>accepted := b\<rparr>"
  proof (cases "r = Inr (Some True)")
    case True
    with reach a have "snd (drop_uri env u s) = s2\<lparr>accepted := True\<rparr>"
      by (simp add: drop_uri_reaches)
    then show ?thesis ..
  next
    case False
    with reach a have "snd (drop_uri env u s) = s2\<lparr>accepted := accepted s2\<rparr>"
      by (cases r) (simp_all add: drop_uri_reaches)
    then show ?thesis ..
  qed
  with reach a show ?thesis by simp
qed (simp_all add: drop_uri_other_scheme drop_uri_empty_path drop_uri_skip)

lemma drop_uri_distinct:
  assumes "reader_reports_path env" and "distinct (map path (files s))"
  shows "distinct (map path (files (snd (drop_uri env u s))))"
proof -
  let ?s1 = "s\<lparr>logged := logged s @ [''Adding file: '' @ passed_path u]\<rparr>"
  from assms(2) have "distinct (map path (files ?s1))" by simp
  from add_file_distinct [OF assms(1) this, of "passed_path u"] assms(2)
    drop_uri_state [of env u s]
  show ?thesis by auto
qed

lemma dropEvent_distinct:
  "reader_reports_path env \<Longrightarrow> distinct (map path (files s)) \<Longrightarrow>
   distinct (map path (files (snd (dropEvent env uris s))))"
proof (induction uris arbitrary: s)
  case Nil
  then show ?case by simp
next
  case (Cons u uris)
  obtain r s1 where d: "drop_uri env u s = (r, s1)" by (cases "drop_uri env u s")
  from drop_uri_distinct [OF Cons.prems, of u] d
  have s1: "distinct (map path (files s1))" by simp
  show ?case
  proof (cases r)
    case (Inl e)
    with d s1 show ?thesis by simp
  next
    case (Inr v)
    with d Cons.IH [OF Cons.prems(1) s1] show ?thesis by simp
  qed
qed

lemma run_operation_distinct:
  "reader_reports_path env \<Longrightarrow> distinct (map path (files s)) \<Longrightarrow>
   distinct (map path (files (run_operation env s op)))"
  by (cases op) (simp_all add: add_file_distinct dropEvent_distinct)







lemma demo_reports_path: "reader_reports_path demo_env"
  by (auto simp: reader_reports_path_def demo_env_def film_def blank_def split: if_splits)

lemma demo_constructs: "clip_constructs demo_env"
  by (simp add: clip_constructs_def demo_env_def)

lemma lower_v_mp4: "lower ''/v.mp4'' = ''/v.mp4''"
  by code_simp

lemma film_not_image: "\<not> is_image film"
  by (simp add: is_image_def film_def lower_v_mp4 endswith_any_def endswith_def)

lemma with_media_type_film: "with_media_type film = film\<lparr>media_type := Some Video\<rparr>"
  by (simp add: with_media_type_def classify_def film_not_image) (simp add: film_def)

lemma with_media_type_blank: "with_media_type blank = blank"
  by (simp add: with_media_type_def classify_def blank_def)

lemma ex_blank: "add_file demo_env ''/n.dat'' empty_state =
   (Inr (Some True), empty_state\<lparr>opened := [''/n.dat''], files := [blank]\<rparr>)"
proof -
  have "File_get (files empty_state) ''/n.dat'' = None" by (simp add: File_get_def empty_state_def)
  moreover have "openshot_Clip demo_env ''/n.dat'' = Inr ''/n.dat''" by (simp add: demo_env_def)
  moreover have "reader_json demo_env ''/n.dat'' = Inr blank" by (simp add: demo_env_def)
  ultimately show ?thesis
    by (simp add: add_file_saved with_media_type_blank empty_state_def)
qed

lemma ex_empty: "dropEvent demo_env [file_uri [], file_uri ''/v.mp4''] empty_state = (Inl IndexError, empty_state)"
  by (simp add: drop_uri_empty_path file_uri_def)

lemma ex_film_drop: "dropEvent demo_env [file_uri ''/v.mp4''] empty_state =
   (Inr (), \<lparr>files = [film\<lparr>media_type := Some Video\<rparr>], opened = [''/v.mp4''], dialogs = [],
            logged = [''Adding file: /v.mp4''], accepted = True\<rparr>)"
proof -
  have r: "reaches_add_file demo_env (file_uri ''/v.mp4'')"
    by (simp add: reaches_add_file_def file_uri_def local_path_def demo_env_def)
  have p: "passed_path (file_uri ''/v.mp4'') = ''/v.mp4''"
    by (simp add: passed_path_def file_uri_def local_path_def)
  have "add_file demo_env ''/v.mp4'' (empty_state\<lparr>logged := logged empty_state @ [''Adding file: /v.mp4'']\<rparr>)
     = (Inr (Some True), \<lparr>files = [film\<lparr>media_type := Some Video\<rparr>], opened = [''/v.mp4''], dialogs = [],
            logged = [''Adding file: /v.mp4''], accepted = False\<rparr>)"
    by (subst add_file_saved [where c = "''/v.mp4''" and fd = film])
       (simp_all add: File_get_def empty_state_def demo_env_def with_media_type_film)
  with r p show ?thesis by (simp add: drop_uri_reaches)
qed

lemma ex_raise: "fst (add_file raising_env ''/v.mp4'' empty_state) = Inl (ExternalError ''clip'')"
  by (simp add: add_file_def raising_env_def File_get_def empty_state_def)

subsection \<open>Results and effects, path by path\<close>

lemma add_file_result:
  assumes "openshot_Clip env p = Inr c"
  shows "fst (add_file env p s) =
           Inr (case File_get (files s) p of
                  Some f \<Rightarrow> None
                | None \<Rightarrow> (case reader_json env c of Inl e \<Rightarrow> Some False | Inr fd \<Rightarrow> Some True))"
proof (cases rule: add_file_cases [where s=s and p=p and env=env])
  case (clip_raises e)
  with assms show ?thesis by simp
next
  case (registered f)
  then show ?thesis by (simp add: add_file_registered)
next
  case (reader_fails c' e)
  with assms show ?thesis by (simp add: add_file_reader_fails)
next
  case (saved c' fd)
  with assms show ?thesis by (simp add: add_file_saved)
qed

lemma drop_uri_returns_at:
  assumes "reaches_add_file env u \<longrightarrow> (\<exists>c. openshot_Clip env (passed_path u) = Inr c)"
    and "url_scheme u = ''file'' \<longrightarrow> url_path u \<noteq> []"
  shows "drop_uri env u s =
           (Inr (), add_each env (if reaches_add_file env u then [passed_path u] else []) s)"
proof (cases "reaches_add_file env u")
  case True
  with assms(1) obtain c where c: "openshot_Clip env (passed_path u) = Inr c" by blast
  let ?s1 = "s\<lparr>logged := logged s @ [''Adding file: '' @ passed_path u]\<rparr>"
  obtain r s2 where a: "add_file env (passed_path u) ?s1 = (r, s2)"
    by (cases "add_file env (passed_path u) ?s1")
  from add_file_result [OF c, of ?s1] a obtain v where v: "r = Inr v" by auto
  with True a show ?thesis by (simp add: drop_uri_reaches)
next
  case False
  with assms(2) show ?thesis by (simp add: drop_uri_skip)
qed

lemma dropEvent_add_each:
  "paths_nonempty uris \<Longrightarrow> clips_construct env uris \<Longrightarrow>
   dropEvent env uris s =
     (Inr (), add_each env (map passed_path (filter (reaches_add_file env) uris)) s)"
proof (induction uris arbitrary: s)
  case Nil
  show ?case by simp
next
  case (Cons u uris)
  from Cons.prems have u: "url_scheme u = ''file'' \<longrightarrow> url_path u \<noteq> []"
    and rest: "paths_nonempty uris" by (simp_all add: paths_nonempty_def)
  from Cons.prems have cu: "reaches_add_file env u \<longrightarrow> (\<exists>c. openshot_Clip env (passed_path u) = Inr c)"
    and crest: "clips_construct env uris" by (simp_all add: clips_construct_def)
  note d = drop_uri_returns_at [OF cu u, of s]
  show ?case
  proof (cases "reaches_add_file env u")
    case True
    with d Cons.IH [OF rest crest] show ?thesis by (simp split: prod.splits)
  next
    case False
    with d Cons.IH [OF rest crest] show ?thesis by simp
  qed
qed

lemma add_each_logged:
  "logged (add_each env ps s) = logged s @ map (\<lambda>fp. ''Adding file: '' @ fp) ps"
proof (induction ps arbitrary: s)
  case Nil
  show ?case by simp
next
  case (Cons fp ps)
  let ?s1 = "s\<lparr>logged := logged s @ [''Adding file: '' @ fp]\<rparr>"
  obtain r s2 where a: "add_file env fp ?s1 = (r, s2)" by (cases "add_file env fp ?s1")
  from add_file_logged [of env fp ?s1] a
  have "logged s2 = logged s @ [''Adding file: '' @ fp]" by simp
  with a Cons.IH show ?case by simp
qed


lemma add_file_twice_at:
  assumes "reports_path env p"
  shows "files (snd (add_file env p (snd (add_file env p s)))) = files (snd (add_file env p s))"
proof (cases rule: add_file_cases [where s=s and p=p and env=env])
  case (saved c fd)
  from assms saved(2,3) have "path fd = p" by (auto simp: reports_path_def)
  then have "File_get (files s @ [with_media_type fd]) p = Some (with_media_type fd)"
    using saved(1) by (simp add: File_get_append_new path_with_media_type)
  then show ?thesis
    by (simp add: add_file_saved [OF saved] add_file_registered)
qed (simp_all add: add_file_registered add_file_clip_raises add_file_reader_fails)

lemma File_get_append_other:
  "path f \<noteq> p \<Longrightarrow> File_get (fs @ [f]) p = File_get fs p"
  by (induction fs) (auto simp: File_get_def)


lemma lower_other_mp4: "lower ''/other.mp4'' = ''/other.mp4''"
  by code_simp

lemma with_media_type_other_film:
  "with_media_type other_film = other_film\<lparr>media_type := Some Video\<rparr>"
proof -
  have "\<not> is_image other_film"
    by (simp add: is_image_def other_film_def lower_other_mp4 endswith_any_def endswith_def)
  then show ?thesis
    by (simp add: with_media_type_def classify_def) (simp add: other_film_def)
qed

lemma path_other_film: "path other_film = ''/other.mp4''"
  by (simp add: other_film_def)

lemma misreporting_first:
  "add_file misreporting_env ''/x.png'' empty_state =
     (Inr (Some True),
      \<lparr>files = [other_film\<lparr>media_type := Some Video\<rparr>], opened = [''/x.png''], dialogs = [],
       logged = [], accepted = False\<rparr>)"
  by (subst add_file_saved [where c = "''/x.png''" and fd = other_film])
     (simp_all add: File_get_def empty_state_def misreporting_env_def demo_env_def
        with_media_type_other_film)

lemma misreporting_second:
  "add_file misreporting_env ''/x.png''
     \<lparr>files = [other_film\<lparr>media_type := Some Video\<rparr>], opened = [''/x.png''], dialogs = [],
      logged = [], accepted = False\<rparr> =
     (Inr (Some True),
      \<lparr>files = [other_film\<lparr>media_type := Some Video\<rparr>, other_film\<lparr>media_type := Some Video\<rparr>],
       opened = [''/x.png'', ''/x.png''], dialogs = [], logged = [], accepted = False\<rparr>)"
  by (subst add_file_saved [where c = "''/x.png''" and fd = other_film])
     (simp_all add: File_get_def misreporting_env_def demo_env_def with_media_type_other_film
        path_other_film)





section \<open>The claims about \<^verbatim>\<open>add_file\<close> and \<^verbatim>\<open>dropEvent\<close>\<close>

text \<open>
  C2, as stated, fails. \<^verbatim>\<open>/n.dat\<close> opens, its reader reports neither video nor
  audio, the chain assigns no media type, and \<^verbatim>\<open>add_file\<close> still saves the record and
  returns \<^verbatim>\<open>True\<close>: nothing is rejected.
\<close>

theorem unclassifiable_is_saved:
  "openshot_Clip demo_env ''/n.dat'' = Inr ''/n.dat'' \<and>
   reader_json demo_env ''/n.dat'' = Inr blank \<and>
   classify (has_video blank) (has_audio blank) (is_image blank) = None \<and>
   add_file demo_env ''/n.dat'' empty_state =
     (Inr (Some True), empty_state\<lparr>opened := [''/n.dat''], files := [blank]\<rparr>)"
  using ex_blank by (simp add: demo_env_def classify_def blank_def)

text \<open>
  C2, amended. For a path that is not yet in the project and whose reader opens and
  reports neither video nor audio, the chain assigns no media type; \<^verbatim>\<open>add_file\<close>
  saves the reader's data as it is, with no \<^verbatim>\<open>media_type\<close> written, and returns
  \<^verbatim>\<open>True\<close>. No dialog is shown.
\<close>

theorem add_file_saves_unclassified:
  assumes "File_get (files s) p = None"
    and "openshot_Clip env p = Inr c"
    and "reader_json env c = Inr fd"
    and "\<not> has_video fd" and "\<not> has_audio fd"
  shows "classify (has_video fd) (has_audio fd) (is_image fd) = None \<and>
         add_file env p s =
           (Inr (Some True), s\<lparr>opened := opened s @ [p], files := files s @ [fd]\<rparr>)"
proof -
  from assms(4,5) have none: "classify (has_video fd) (has_audio fd) (is_image fd) = None"
    by (simp add: classify_def)
  then have "with_media_type fd = fd" by (simp add: with_media_type_def)
  with none show ?thesis by (simp add: add_file_saved [OF assms(1-3)])
qed

text \<open>The amended C2 at \<^verbatim>\<open>/n.dat\<close> in the empty project.\<close>

theorem add_file_saves_unclassified_witness:
  "File_get (files empty_state) ''/n.dat'' = None \<and>
   openshot_Clip demo_env ''/n.dat'' = Inr ''/n.dat'' \<and>
   reader_json demo_env ''/n.dat'' = Inr blank \<and>
   \<not> has_video blank \<and> \<not> has_audio blank \<and>
   add_file demo_env ''/n.dat'' empty_state =
     (Inr (Some True),
      \<lparr>files = [blank], opened = [''/n.dat''], dialogs = [], logged = [], accepted = False\<rparr>)"
proof -
  have h1: "File_get (files empty_state) ''/n.dat'' = None"
    by (simp add: File_get_def empty_state_def)
  have h2: "openshot_Clip demo_env ''/n.dat'' = Inr ''/n.dat''" by (simp add: demo_env_def)
  have h3: "reader_json demo_env ''/n.dat'' = Inr blank" by (simp add: demo_env_def)
  have h4: "\<not> has_video blank" and h5: "\<not> has_audio blank" by (simp_all add: blank_def)
  from add_file_saves_unclassified [OF h1 h2 h3 h4 h5] h1 h2 h3 h4 h5
  show ?thesis by (simp add: empty_state_def)
qed

text \<open>
  C3, as stated, fails twice. A dropped \<^verbatim>\<open>file\<close> URI with an empty path raises
  \<^verbatim>\<open>IndexError\<close> out of \<^verbatim>\<open>dropEvent\<close> (line 174 indexes the path before any
  test), and an exception of the constructor \<^verbatim>\<open>openshot.Clip\<close> leaves \<^verbatim>\<open>add_file\<close>,
  since line 139 stands before the \<^verbatim>\<open>try\<close>.
\<close>

theorem exceptions_escape:
  "fst (dropEvent demo_env [file_uri []] empty_state) = Inl IndexError \<and>
   fst (add_file raising_env ''/v.mp4'' empty_state) = Inl (ExternalError ''clip'')"
  using ex_raise by (simp add: drop_uri_empty_path file_uri_def)

text \<open>
  C3, amended. When the constructor \<^verbatim>\<open>openshot.Clip(filepath)\<close> returns a clip,
  \<^verbatim>\<open>add_file\<close> returns a value, whatever the reader does: \<^verbatim>\<open>None\<close> for a path
  already in the project, \<^verbatim>\<open>False\<close> when the reader query raises (the exception is
  caught), and \<^verbatim>\<open>True\<close> otherwise. And \<^verbatim>\<open>dropEvent\<close> returns normally for every
  list of URIs whose \<^verbatim>\<open>file\<close> URIs all have a path that is not empty and for whose
  tested paths the constructor returns.
\<close>

theorem exceptions_caught_after_construction:
  "(openshot_Clip env p = Inr c \<longrightarrow>
      fst (add_file env p s) =
        Inr (case File_get (files s) p of
               Some f \<Rightarrow> None
             | None \<Rightarrow> (case reader_json env c of Inl e \<Rightarrow> Some False | Inr fd \<Rightarrow> Some True))) \<and>
   (paths_nonempty uris \<longrightarrow> clips_construct env uris \<longrightarrow> fst (dropEvent env uris s) = Inr ())"
  using add_file_result [of env p c s] dropEvent_add_each [of uris env s] by simp

lemma demo_bad_film_nonempty: "paths_nonempty [file_uri ''/bad.bin'', file_uri ''/v.mp4'']"
  by (simp add: paths_nonempty_def file_uri_def)

lemma demo_bad_film_construct: "clips_construct demo_env [file_uri ''/bad.bin'', file_uri ''/v.mp4'']"
  by (simp add: clips_construct_def demo_env_def)

text \<open>
  The amended C3 in the example world, on a file whose reader fails.
\<close>

theorem exceptions_caught_after_construction_witness:
  "openshot_Clip demo_env ''/bad.bin'' = Inr ''/bad.bin'' \<and>
   reader_json demo_env ''/bad.bin'' = Inl (ExternalError ''no reader'') \<and>
   fst (add_file demo_env ''/bad.bin'' empty_state) = Inr (Some False) \<and>
   paths_nonempty [file_uri ''/bad.bin'', file_uri ''/v.mp4''] \<and>
   clips_construct demo_env [file_uri ''/bad.bin'', file_uri ''/v.mp4''] \<and>
   fst (dropEvent demo_env [file_uri ''/bad.bin'', file_uri ''/v.mp4''] empty_state) = Inr ()"
proof -
  have h1: "openshot_Clip demo_env ''/bad.bin'' = Inr ''/bad.bin''" by (simp add: demo_env_def)
  have h2: "reader_json demo_env ''/bad.bin'' = Inl (ExternalError ''no reader'')"
    by (simp add: demo_env_def)
  have h3: "File_get (files empty_state) ''/bad.bin'' = None"
    by (simp add: File_get_def empty_state_def)
  note t = exceptions_caught_after_construction [of demo_env "''/bad.bin''" "''/bad.bin''"
      empty_state "[file_uri ''/bad.bin'', file_uri ''/v.mp4'']"]
  from t [THEN conjunct1] h1 h2 h3
  have a: "fst (add_file demo_env ''/bad.bin'' empty_state) = Inr (Some False)" by simp
  from t [THEN conjunct2] demo_bad_film_nonempty demo_bad_film_construct
  have b: "fst (dropEvent demo_env [file_uri ''/bad.bin'', file_uri ''/v.mp4''] empty_state) = Inr ()"
    by blast
  from h1 h2 a b demo_bad_film_nonempty demo_bad_film_construct show ?thesis by blast
qed

text \<open>
  C4, as stated, fails in its last part. The lookup of line 132 is by \<^verbatim>\<open>filepath\<close>,
  the record saved at lines 155-157 carries the reader's \<^verbatim>\<open>path\<close>, and nothing compares
  the two: with a reader that reports another path, the second call for \<^verbatim>\<open>/x.png\<close>
  finds nothing and saves a second record.
\<close>

theorem second_call_saves_again:
  "files (snd (add_file misreporting_env ''/x.png'' empty_state)) =
     [other_film\<lparr>media_type := Some Video\<rparr>] \<and>
   files (snd (add_file misreporting_env ''/x.png''
            (snd (add_file misreporting_env ''/x.png'' empty_state)))) =
     [other_film\<lparr>media_type := Some Video\<rparr>, other_film\<lparr>media_type := Some Video\<rparr>]"
  by (simp add: misreporting_first misreporting_second)

text \<open>
  C4, amended. For a path already in the project, \<^verbatim>\<open>add_file\<close> returns at line 136
  with the whole state unchanged: no clip is constructed (\<open>opened\<close> is the same), no
  record is saved, no dialog is shown. When the reader reports for this path the path
  it was given, a second call leaves the records as the first call left them, and
  returns at line 136 when the first call saved the file. For a path the first call
  saves, the second call leaves the records alone exactly when the reader reported that
  path.
\<close>

theorem add_file_dedup:
  "(File_get (files s) p = Some f \<longrightarrow> add_file env p s = (Inr None, s)) \<and>
   (reports_path env p \<longrightarrow>
      files (snd (add_file env p (snd (add_file env p s)))) = files (snd (add_file env p s))) \<and>
   (reports_path env p \<longrightarrow> fst (add_file env p s) = Inr (Some True) \<longrightarrow>
      add_file env p (snd (add_file env p s)) = (Inr None, snd (add_file env p s))) \<and>
   (File_get (files s) p = None \<longrightarrow> openshot_Clip env p = Inr c \<longrightarrow> reader_json env c = Inr fd \<longrightarrow>
      (files (snd (add_file env p (snd (add_file env p s)))) = files (snd (add_file env p s))
         \<longleftrightarrow> path fd = p))"
proof (intro conjI impI)
  assume "File_get (files s) p = Some f"
  then show "add_file env p s = (Inr None, s)" by (rule add_file_registered)
next
  assume "reports_path env p"
  then show "files (snd (add_file env p (snd (add_file env p s)))) = files (snd (add_file env p s))"
    by (rule add_file_twice_at)
next
  assume rep: "reports_path env p" and imported: "fst (add_file env p s) = Inr (Some True)"
  show "add_file env p (snd (add_file env p s)) = (Inr None, snd (add_file env p s))"
  proof (cases rule: add_file_cases [where s=s and p=p and env=env])
    case (saved c fd)
    from rep saved(2,3) have "path fd = p" by (auto simp: reports_path_def)
    then have "File_get (files s @ [with_media_type fd]) p = Some (with_media_type fd)"
      using saved(1) by (simp add: File_get_append_new path_with_media_type)
    then show ?thesis by (simp add: add_file_saved [OF saved] add_file_registered)
  next
    case (registered f)
    with imported show ?thesis by (simp add: add_file_registered)
  next
    case (clip_raises e)
    with imported show ?thesis by (simp add: add_file_clip_raises)
  next
    case (reader_fails c e)
    with imported show ?thesis by (simp add: add_file_reader_fails)
  qed
next
  assume new: "File_get (files s) p = None" and c: "openshot_Clip env p = Inr c"
    and fd: "reader_json env c = Inr fd"
  note first = add_file_saved [OF new c fd]
  show "files (snd (add_file env p (snd (add_file env p s)))) = files (snd (add_file env p s))
         \<longleftrightarrow> path fd = p"
  proof (cases "path fd = p")
    case True
    then have "File_get (files s @ [with_media_type fd]) p = Some (with_media_type fd)"
      using new by (simp add: File_get_append_new path_with_media_type)
    with True show ?thesis by (simp add: first add_file_registered)
  next
    case False
    then have "File_get (files s @ [with_media_type fd]) p = None"
      using new by (simp add: File_get_append_other path_with_media_type)
    then have "add_file env p (s\<lparr>opened := opened s @ [p], files := files s @ [with_media_type fd]\<rparr>)
       = (Inr (Some True),
          s\<lparr>opened := opened s @ [p], files := files s @ [with_media_type fd]\<rparr>
           \<lparr>opened := opened s @ [p] @ [p],
            files := (files s @ [with_media_type fd]) @ [with_media_type fd]\<rparr>)"
      using c fd by (simp add: add_file_saved)
    with False show ?thesis by (simp add: first)
  qed
qed

lemma ex_film:
  "add_file demo_env ''/v.mp4'' empty_state =
     (Inr (Some True),
      \<lparr>files = [film\<lparr>media_type := Some Video\<rparr>], opened = [''/v.mp4''], dialogs = [],
       logged = [], accepted = False\<rparr>)"
  by (subst add_file_saved [where c = "''/v.mp4''" and fd = film])
     (simp_all add: File_get_def empty_state_def demo_env_def with_media_type_film)

lemma film_registered: "File_get (files film_state) ''/v.mp4'' = Some (film\<lparr>media_type := Some Video\<rparr>)"
  by (simp add: File_get_def film_state_def film_def)

lemma demo_reports_v: "reports_path demo_env ''/v.mp4''"
  by (simp add: reports_path_def demo_env_def film_def)

text \<open>C4 at \<^verbatim>\<open>/v.mp4\<close>: the first call saves it, the second finds it.\<close>
theorem add_file_dedup_witness:
  "File_get (files film_state) ''/v.mp4'' = Some (film\<lparr>media_type := Some Video\<rparr>) \<and>
   add_file demo_env ''/v.mp4'' film_state = (Inr None, film_state) \<and>
   reports_path demo_env ''/v.mp4'' \<and>
   File_get (files empty_state) ''/v.mp4'' = None \<and>
   openshot_Clip demo_env ''/v.mp4'' = Inr ''/v.mp4'' \<and>
   reader_json demo_env ''/v.mp4'' = Inr film \<and>
   fst (add_file demo_env ''/v.mp4'' empty_state) = Inr (Some True) \<and>
   snd (add_file demo_env ''/v.mp4'' empty_state) = film_state \<and>
   files (snd (add_file demo_env ''/v.mp4'' film_state)) = files film_state"
proof -
  have first: "add_file demo_env ''/v.mp4'' empty_state = (Inr (Some True), film_state)"
    by (simp add: ex_film film_state_def)
  have h1: "File_get (files empty_state) ''/v.mp4'' = None"
    by (simp add: File_get_def empty_state_def)
  have h2: "openshot_Clip demo_env ''/v.mp4'' = Inr ''/v.mp4''" by (simp add: demo_env_def)
  have h3: "reader_json demo_env ''/v.mp4'' = Inr film" by (simp add: demo_env_def)
  from add_file_dedup [of film_state "''/v.mp4''" "film\<lparr>media_type := Some Video\<rparr>" demo_env]
    film_registered
  have second: "add_file demo_env ''/v.mp4'' film_state = (Inr None, film_state)" by blast
  from add_file_dedup [where s = empty_state and p = "''/v.mp4''" and env = demo_env]
    demo_reports_v first
  have "files (snd (add_file demo_env ''/v.mp4'' film_state)) = files film_state" by simp
  with first second film_registered demo_reports_v h1 h2 h3 show ?thesis by simp
qed

text \<open>
  C5, as stated, fails for a probe that fails in the constructor. The clip is built at
  line 139, before the \<^verbatim>\<open>try\<close>: its exception leaves \<^verbatim>\<open>add_file\<close>, and there is
  neither a \<^verbatim>\<open>False\<close> nor a dialog.
\<close>

theorem constructor_failure_is_not_rejected:
  "File_get (files empty_state) ''/bad.bin'' = None \<and>
   openshot_Clip raising_env ''/bad.bin'' = Inl (ExternalError ''clip'') \<and>
   add_file raising_env ''/bad.bin'' empty_state =
     (Inl (ExternalError ''clip''), empty_state\<lparr>opened := [''/bad.bin'']\<rparr>)"
proof -
  have h1: "File_get (files empty_state) ''/bad.bin'' = None"
    by (simp add: File_get_def empty_state_def)
  have h2: "openshot_Clip raising_env ''/bad.bin'' = Inl (ExternalError ''clip'')"
    by (simp add: raising_env_def)
  from add_file_clip_raises [OF h1 h2] h1 h2 show ?thesis by (simp add: empty_state_def)
qed

text \<open>
  C5, amended. For a path that is not in the project, the one case in which a probe is
  made: when the clip is constructed and the reader query fails (the clip has no
  reader, or its JSON cannot be decoded), \<^verbatim>\<open>add_file\<close> returns \<^verbatim>\<open>False\<close> and shows the
  dialog that the file is not a valid video, audio, or image file; when the constructor
  itself raises, the exception leaves \<^verbatim>\<open>add_file\<close>. In both cases, for every path, the
  records of the project are unchanged: no record is created.
\<close>

theorem add_file_unreadable:
  "(File_get (files s) p = None \<longrightarrow> openshot_Clip env p = Inr c \<longrightarrow> reader_json env c = Inl e \<longrightarrow>
      add_file env p s =
        (Inr (Some False),
         s\<lparr>opened := opened s @ [p],
           dialogs := dialogs s @
             [snd (os_path_split env p) @ '' is not a valid video, audio, or image file.'']\<rparr>)) \<and>
   (File_get (files s) p = None \<longrightarrow> openshot_Clip env p = Inl e \<longrightarrow>
      add_file env p s = (Inl e, s\<lparr>opened := opened s @ [p]\<rparr>)) \<and>
   (openshot_Clip env p = Inl e \<or> (openshot_Clip env p = Inr c \<and> reader_json env c = Inl e) \<longrightarrow>
      files (snd (add_file env p s)) = files s)"
proof (intro conjI impI)
  assume "File_get (files s) p = None" "openshot_Clip env p = Inr c" "reader_json env c = Inl e"
  then show "add_file env p s =
        (Inr (Some False),
         s\<lparr>opened := opened s @ [p],
           dialogs := dialogs s @
             [snd (os_path_split env p) @ '' is not a valid video, audio, or image file.'']\<rparr>)"
    by (rule add_file_reader_fails)
next
  assume "File_get (files s) p = None" "openshot_Clip env p = Inl e"
  then show "add_file env p s = (Inl e, s\<lparr>opened := opened s @ [p]\<rparr>)"
    by (rule add_file_clip_raises)
next
  assume fails: "openshot_Clip env p = Inl e \<or> (openshot_Clip env p = Inr c \<and> reader_json env c = Inl e)"
  show "files (snd (add_file env p s)) = files s"
  proof (cases "File_get (files s) p")
    case None
    from fails show ?thesis
    proof
      assume "openshot_Clip env p = Inl e"
      with None show ?thesis by (simp add: add_file_clip_raises)
    next
      assume "openshot_Clip env p = Inr c \<and> reader_json env c = Inl e"
      with None show ?thesis by (simp add: add_file_reader_fails)
    qed
  next
    case (Some f)
    then show ?thesis by (simp add: add_file_registered)
  qed
qed

text \<open>
  The amended C5 at \<^verbatim>\<open>/bad.bin\<close>: with a reader that fails, with a constructor that
  raises, and in a project that holds another file.
\<close>

theorem add_file_unreadable_witness:
  "File_get (files empty_state) ''/bad.bin'' = None \<and>
   openshot_Clip demo_env ''/bad.bin'' = Inr ''/bad.bin'' \<and>
   reader_json demo_env ''/bad.bin'' = Inl (ExternalError ''no reader'') \<and>
   add_file demo_env ''/bad.bin'' empty_state =
     (Inr (Some False),
      \<lparr>files = [], opened = [''/bad.bin''],
       dialogs = [''bad.bin is not a valid video, audio, or image file.''],
       logged = [], accepted = False\<rparr>) \<and>
   openshot_Clip raising_env ''/bad.bin'' = Inl (ExternalError ''clip'') \<and>
   add_file raising_env ''/bad.bin'' empty_state =
     (Inl (ExternalError ''clip''),
      \<lparr>files = [], opened = [''/bad.bin''], dialogs = [], logged = [], accepted = False\<rparr>) \<and>
   files (snd (add_file demo_env ''/bad.bin'' film_state)) = files film_state"
proof -
  have h0: "File_get (files empty_state) ''/bad.bin'' = None"
    by (simp add: File_get_def empty_state_def)
  have h1: "openshot_Clip demo_env ''/bad.bin'' = Inr ''/bad.bin''" by (simp add: demo_env_def)
  have h2: "reader_json demo_env ''/bad.bin'' = Inl (ExternalError ''no reader'')"
    by (simp add: demo_env_def)
  have h3: "openshot_Clip raising_env ''/bad.bin'' = Inl (ExternalError ''clip'')"
    by (simp add: raising_env_def)
  have name: "snd (os_path_split demo_env ''/bad.bin'') = ''bad.bin''"
    by (simp add: demo_env_def posix_split_def)
  note t1 = add_file_unreadable [of empty_state "''/bad.bin''" demo_env "''/bad.bin''"
      "ExternalError ''no reader''"]
  from t1 [THEN conjunct1] h0 h1 h2 name
  have a: "add_file demo_env ''/bad.bin'' empty_state =
     (Inr (Some False),
      \<lparr>files = [], opened = [''/bad.bin''],
       dialogs = [''bad.bin is not a valid video, audio, or image file.''],
       logged = [], accepted = False\<rparr>)"
    by (simp add: empty_state_def)
  note t2 = add_file_unreadable [of empty_state "''/bad.bin''" raising_env _
      "ExternalError ''clip''"]
  from t2 [THEN conjunct2, THEN conjunct1] h0 h3
  have b: "add_file raising_env ''/bad.bin'' empty_state =
     (Inl (ExternalError ''clip''),
      \<lparr>files = [], opened = [''/bad.bin''], dialogs = [], logged = [], accepted = False\<rparr>)"
    by (simp add: empty_state_def)
  note t3 = add_file_unreadable [of film_state "''/bad.bin''" demo_env "''/bad.bin''"
      "ExternalError ''no reader''"]
  from t3 [THEN conjunct2, THEN conjunct2] h1 h2
  have c: "files (snd (add_file demo_env ''/bad.bin'' film_state)) = files film_state" by blast
  from h0 h1 h2 h3 a b c show ?thesis by blast
qed

text \<open>
  C6, as stated, fails. A \<^verbatim>\<open>file\<close> URI with an empty path in front of \<^verbatim>\<open>/v.mp4\<close>
  ends the loop with \<^verbatim>\<open>IndexError\<close> before \<^verbatim>\<open>/v.mp4\<close> is looked at; dropped
  alone, \<^verbatim>\<open>/v.mp4\<close> is added. The handler returns no value in either case.
\<close>

theorem drop_aborts_on_empty_path:
  "dropEvent demo_env [file_uri [], file_uri ''/v.mp4''] empty_state = (Inl IndexError, empty_state) \<and>
   files (snd (dropEvent demo_env [file_uri ''/v.mp4''] empty_state)) =
     [film\<lparr>media_type := Some Video\<rparr>]"
  using ex_empty ex_film_drop by simp

text \<open>
  C6, amended. \<^verbatim>\<open>dropEvent\<close> returns no list of results. When every \<^verbatim>\<open>file\<close> URI has
  a path that is not empty and the constructor \<^verbatim>\<open>openshot.Clip\<close> returns for the paths
  that pass the tests, the loop runs to the end of the list and returns normally, and
  the state it leaves is the one left by calling \<^verbatim>\<open>add_file\<close> once, in input order, on
  the normalised path of each URI that passes the scheme, existence and regular file
  tests, and on nothing else. A path that does not exist and a file that cannot be read
  do not stop it. A list is handled as its front part followed by its back part, from
  the state the front part left, and the log holds one line per call, in order.
\<close>

theorem dropEvent_whole_batch_in_order:
  assumes "paths_nonempty (us @ vs)" and "clips_construct env (us @ vs)"
  shows "dropEvent env (us @ vs) s =
           (Inr (), add_each env (map passed_path (filter (reaches_add_file env) (us @ vs))) s) \<and>
         snd (dropEvent env (us @ vs) s) = snd (dropEvent env vs (snd (dropEvent env us s))) \<and>
         logged (snd (dropEvent env (us @ vs) s)) =
           logged s @ map (\<lambda>u. ''Adding file: '' @ passed_path u)
                        (filter (reaches_add_file env) (us @ vs))"
proof -
  from assms have us: "paths_nonempty us" "clips_construct env us"
    and vs: "paths_nonempty vs" "clips_construct env vs"
    by (simp_all add: paths_nonempty_def clips_construct_def)
  have whole: "dropEvent env (us @ vs) s =
      (Inr (), add_each env (map passed_path (filter (reaches_add_file env) (us @ vs))) s)"
    using assms by (rule dropEvent_add_each)
  have "dropEvent env (us @ vs) s = dropEvent env vs (snd (dropEvent env us s))"
    by (simp add: dropEvent_append dropEvent_add_each [OF us])
  moreover have "logged (snd (dropEvent env (us @ vs) s)) =
           logged s @ map (\<lambda>u. ''Adding file: '' @ passed_path u)
                        (filter (reaches_add_file env) (us @ vs))"
    unfolding whole by (simp add: add_each_logged comp_def)
  ultimately show ?thesis using whole by simp
qed

lemma demo_batch_nonempty:
  "paths_nonempty ([file_uri ''/nope'', file_uri ''/bad.bin''] @ [file_uri ''/v.mp4''])"
  by (simp add: paths_nonempty_def file_uri_def)

lemma demo_reaches:
  "\<not> reaches_add_file demo_env (file_uri ''/nope'')"
  "reaches_add_file demo_env (file_uri ''/bad.bin'')"
  "reaches_add_file demo_env (file_uri ''/v.mp4'')"
  by (simp_all add: reaches_add_file_def file_uri_def local_path_def demo_env_def)

lemma demo_passed:
  "passed_path (file_uri ''/bad.bin'') = ''/bad.bin''"
  "passed_path (file_uri ''/v.mp4'') = ''/v.mp4''"
  by (simp_all add: passed_path_def file_uri_def local_path_def)

lemma demo_batch_construct:
  "clips_construct demo_env ([file_uri ''/nope'', file_uri ''/bad.bin''] @ [file_uri ''/v.mp4''])"
  by (simp add: clips_construct_def demo_env_def)

lemma demo_add_each:
  "add_each demo_env [''/bad.bin'', ''/v.mp4''] empty_state =
     \<lparr>files = [film\<lparr>media_type := Some Video\<rparr>], opened = [''/bad.bin'', ''/v.mp4''],
      dialogs = [''bad.bin is not a valid video, audio, or image file.''],
      logged = [''Adding file: /bad.bin'', ''Adding file: /v.mp4''], accepted = True\<rparr>"
proof -
  have bad: "add_file demo_env ''/bad.bin''
      (empty_state\<lparr>logged := logged empty_state @ [''Adding file: /bad.bin'']\<rparr>) =
     (Inr (Some False),
      \<lparr>files = [], opened = [''/bad.bin''],
       dialogs = [''bad.bin is not a valid video, audio, or image file.''],
       logged = [''Adding file: /bad.bin''], accepted = False\<rparr>)"
    by (subst add_file_reader_fails [where c = "''/bad.bin''" and e = "ExternalError ''no reader''"])
       (simp_all add: File_get_def empty_state_def demo_env_def posix_split_def)
  have good: "add_file demo_env ''/v.mp4''
      \<lparr>files = [], opened = [''/bad.bin''],
       dialogs = [''bad.bin is not a valid video, audio, or image file.''],
       logged = [''Adding file: /bad.bin'', ''Adding file: /v.mp4''], accepted = False\<rparr> =
     (Inr (Some True),
      \<lparr>files = [film\<lparr>media_type := Some Video\<rparr>], opened = [''/bad.bin'', ''/v.mp4''],
       dialogs = [''bad.bin is not a valid video, audio, or image file.''],
       logged = [''Adding file: /bad.bin'', ''Adding file: /v.mp4''], accepted = False\<rparr>)"
    by (subst add_file_saved [where c = "''/v.mp4''" and fd = film])
       (simp_all add: File_get_def demo_env_def with_media_type_film)
  show ?thesis by (simp add: bad good)
qed

text \<open>
  The amended C6 on a missing path, an unreadable file and a film, in this order: the
  missing path leaves no trace, the unreadable file its dialog, the film its record.
\<close>

theorem dropEvent_whole_batch_in_order_witness:
  "paths_nonempty ([file_uri ''/nope'', file_uri ''/bad.bin''] @ [file_uri ''/v.mp4'']) \<and>
   clips_construct demo_env ([file_uri ''/nope'', file_uri ''/bad.bin''] @ [file_uri ''/v.mp4'']) \<and>
   dropEvent demo_env [file_uri ''/nope'', file_uri ''/bad.bin'', file_uri ''/v.mp4'']
     empty_state =
     (Inr (),
      \<lparr>files = [film\<lparr>media_type := Some Video\<rparr>], opened = [''/bad.bin'', ''/v.mp4''],
       dialogs = [''bad.bin is not a valid video, audio, or image file.''],
       logged = [''Adding file: /bad.bin'', ''Adding file: /v.mp4''], accepted = True\<rparr>)"
proof -
  note batch = dropEvent_whole_batch_in_order [OF demo_batch_nonempty demo_batch_construct,
      of empty_state]
  from batch [THEN conjunct1]
  have "dropEvent demo_env [file_uri ''/nope'', file_uri ''/bad.bin'', file_uri ''/v.mp4'']
     empty_state = (Inr (), add_each demo_env [''/bad.bin'', ''/v.mp4''] empty_state)"
    by (simp del: dropEvent.simps add_each.simps add: demo_reaches demo_passed)
  with demo_batch_nonempty demo_batch_construct show ?thesis
    by (simp del: dropEvent.simps add_each.simps add: demo_add_each)
qed

text \<open>
  C8, as stated, fails. With a reader that reports another path than the one it was
  given, two calls for \<^verbatim>\<open>/x.png\<close> save two records with the same path.
\<close>

theorem duplicate_paths_after_two_calls:
  "distinct (map path (files empty_state)) \<and>
   \<not> distinct (map path (files (run_operations misreporting_env
        [AddFile ''/x.png'', AddFile ''/x.png''] empty_state)))"
proof -
  have "distinct (map path (files empty_state))" by (simp add: empty_state_def)
  moreover have "\<not> distinct (map path (files (run_operations misreporting_env
        [AddFile ''/x.png'', AddFile ''/x.png''] empty_state)))"
    by (simp add: run_operations_def misreporting_first misreporting_second)
  ultimately show ?thesis by blast
qed

text \<open>
  C8, amended. When the reader reports, for every path, the path it was given, and the
  records of the project have pairwise distinct paths, they still have after any
  sequence of \<^verbatim>\<open>add_file\<close> and \<^verbatim>\<open>dropEvent\<close> calls, including calls that end in an
  exception.
\<close>

theorem registry_paths_distinct:
  assumes "reader_reports_path env" and "distinct (map path (files s))"
  shows "distinct (map path (files (run_operations env ops s)))"
  using assms(2)
proof (induction ops arbitrary: s)
  case Nil
  then show ?case by (simp add: run_operations_def)
next
  case (Cons op ops)
  from assms(1) Cons.prems have "distinct (map path (files (run_operation env s op)))"
    by (rule run_operation_distinct)
  then have "distinct (map path (files (run_operations env ops (run_operation env s op))))"
    by (rule Cons.IH)
  then show ?case by (simp add: run_operations_def)
qed

lemma empty_state_distinct: "distinct (map path (files empty_state))"
  by (simp add: empty_state_def)

text \<open>C8 on a sequence that offers \<^verbatim>\<open>/v.mp4\<close> three times.\<close>

theorem registry_paths_distinct_witness:
  "reader_reports_path demo_env \<and>
   distinct (map path (files empty_state)) \<and>
   distinct (map path (files (run_operations demo_env
      [AddFile ''/v.mp4'', DropEvent [file_uri ''/v.mp4'', file_uri ''/n.dat''], AddFile ''/v.mp4'']
      empty_state)))"
  using registry_paths_distinct [OF demo_reports_path empty_state_distinct]
    demo_reports_path empty_state_distinct
  by blast

text \<open>
  C10. The handler reads \<^verbatim>\<open>filepath[0]\<close> before any other test, so the path
  normalisation raises \<^verbatim>\<open>IndexError\<close> exactly on the empty path and returns a path
  exactly on the others. A \<^verbatim>\<open>file\<close> URI with an empty path makes the loop body raise
  with the state untouched, and a list that holds such a URI anywhere never runs to its
  end. When the constructor \<^verbatim>\<open>openshot.Clip\<close> always returns, \<^verbatim>\<open>dropEvent\<close>
  returns normally exactly when every \<^verbatim>\<open>file\<close> URI has a path that is not empty.
\<close>

theorem empty_path_raises:
  "(local_path p = Inl IndexError \<longleftrightarrow> p = []) \<and>
   ((\<exists>fp. local_path p = Inr fp) \<longleftrightarrow> p \<noteq> []) \<and>
   drop_uri env (file_uri []) s = (Inl IndexError, s) \<and>
   (\<exists>e s'. dropEvent env (us @ file_uri [] # vs) s = (Inl e, s')) \<and>
   (clip_constructs env \<longrightarrow> (fst (dropEvent env uris s) = Inr () \<longleftrightarrow> paths_nonempty uris))"
proof -
  have a: "local_path p = Inl IndexError \<longleftrightarrow> p = []" by (simp add: local_path_Inl)
  have b: "(\<exists>fp. local_path p = Inr fp) \<longleftrightarrow> p \<noteq> []"
    by (cases p) (simp_all add: local_path_def)
  have c: "drop_uri env (file_uri []) s = (Inl IndexError, s)"
    by (simp add: drop_uri_empty_path file_uri_def)
  have d: "\<exists>e s'. dropEvent env (us @ file_uri [] # vs) s = (Inl e, s')"
    by (rule dropEvent_empty_path_raises) (simp_all add: file_uri_def)
  have e: "fst (dropEvent env uris s) = Inr () \<longleftrightarrow> paths_nonempty uris" if "clip_constructs env"
  proof
    assume ok: "fst (dropEvent env uris s) = Inr ()"
    show "paths_nonempty uris"
    proof (rule ccontr)
      assume "\<not> paths_nonempty uris"
      then obtain u where "u \<in> set uris" and u: "url_scheme u = ''file''" "url_path u = []"
        by (auto simp: paths_nonempty_def)
      then obtain xs ys where "uris = xs @ u # ys" by (auto dest: split_list)
      with dropEvent_empty_path_raises [OF u, of env xs ys s] ok show False by auto
    qed
  next
    assume "paths_nonempty uris"
    with that show "fst (dropEvent env uris s) = Inr ()" by (rule dropEvent_returns)
  qed
  from a b c d e show ?thesis by blast
qed

text \<open>C10 in the example world, with and without an empty path.\<close>

theorem empty_path_raises_witness:
  "clip_constructs demo_env \<and>
   paths_nonempty [file_uri ''/v.mp4''] \<and>
   fst (dropEvent demo_env [file_uri ''/v.mp4''] empty_state) = Inr () \<and>
   \<not> paths_nonempty [file_uri ''/v.mp4'', file_uri []] \<and>
   fst (dropEvent demo_env [file_uri ''/v.mp4'', file_uri []] empty_state) \<noteq> Inr ()"
proof -
  have yes: "paths_nonempty [file_uri ''/v.mp4'']"
    by (simp add: paths_nonempty_def file_uri_def)
  have no: "\<not> paths_nonempty [file_uri ''/v.mp4'', file_uri []]"
    by (simp add: paths_nonempty_def file_uri_def)
  from empty_path_raises [where env = demo_env and uris = "[file_uri ''/v.mp4'']" and s = empty_state]
    demo_constructs yes
  have 1: "fst (dropEvent demo_env [file_uri ''/v.mp4''] empty_state) = Inr ()" by blast
  from empty_path_raises [where env = demo_env and uris = "[file_uri ''/v.mp4'', file_uri []]"
      and s = empty_state]
    demo_constructs no
  have 2: "fst (dropEvent demo_env [file_uri ''/v.mp4'', file_uri []] empty_state) \<noteq> Inr ()"
    by blast
  from demo_constructs yes no 1 2 show ?thesis by blast
qed




end
